theory Spec2Isabelle
  imports Main
begin

section \<open>The counter backend of Protos-Eschaton\<close>

text \<open>
  The repository holds two versions of one Google Apps Script: \<^verbatim>\<open>src/apps.js\<close> (reads and
  bumps through GET, with a POST entry point kept for compatibility) and the shorter
  \<^verbatim>\<open>src/unnamed/part_000\<close>. Both keep, per slug, three counters in the rows of a sheet
  named \<^verbatim>\<open>metrics\<close>. The functions of \<^verbatim>\<open>apps.js\<close> keep their names here without the
  trailing underscore (\<^verbatim>\<open>bump_\<close> is \<open>bump\<close>); those of \<^verbatim>\<open>part_000\<close> carry the suffix
  \<open>_p0\<close>.
\<close>

subsection \<open>JavaScript values\<close>

text \<open>
  The values that the script reads from cells, computes and writes back. A number is an
  integer here (the counters are integers; the limits of double precision are not
  modelled). A blank cell reads as the empty string.
\<close>

datatype jsval = Num int | NaN | Str string

definition blank :: jsval where
  "blank = Str []"

text \<open>Truthiness, \<^verbatim>\<open>a || b\<close> and \<^verbatim>\<open>v + 1\<close> (which appends to a string).\<close>

definition truthy :: "jsval \<Rightarrow> bool" where
  "truthy v = (case v of Num n \<Rightarrow> n \<noteq> 0 | NaN \<Rightarrow> False | Str s \<Rightarrow> s \<noteq> [])"

definition js_or :: "jsval \<Rightarrow> jsval \<Rightarrow> jsval" where
  "js_or a b = (if truthy a then a else b)"

definition js_add1 :: "jsval \<Rightarrow> jsval" where
  "js_add1 v = (case v of Num n \<Rightarrow> Num (n + 1) | NaN \<Rightarrow> NaN | Str s \<Rightarrow> Str (s @ ''1''))"

text \<open>\<^verbatim>\<open>String(v)\<close>: a number in decimal, a string as it is.\<close>

fun digits :: "nat \<Rightarrow> string" where
  "digits n = (if n < 10 then [char_of (48 + n)] else digits (n div 10) @ [char_of (48 + n mod 10)])"

declare digits.simps [simp del]

definition String_of :: "jsval \<Rightarrow> string" where
  "String_of v = (case v of
     Num n \<Rightarrow> (if n < 0 then ''-'' @ digits (nat (- n)) else digits (nat n))
   | NaN \<Rightarrow> ''NaN''
   | Str s \<Rightarrow> s)"

text \<open>
  A parameter or property that may be absent (\<^verbatim>\<open>undefined\<close>) is a \<open>string option\<close>;
  \<^verbatim>\<open>a || b\<close> on such values skips the absent and the empty string.
\<close>

definition str_truthy :: "string option \<Rightarrow> bool" where
  "str_truthy a = (case a of None \<Rightarrow> False | Some s \<Rightarrow> s \<noteq> [])"

definition str_or :: "string option \<Rightarrow> string option \<Rightarrow> string option" where
  "str_or a b = (if str_truthy a then a else b)"

definition str_or_default :: "string option \<Rightarrow> string \<Rightarrow> string" where
  "str_or_default a d = (case a of None \<Rightarrow> d | Some s \<Rightarrow> (if s = [] then d else s))"

text \<open>\<^verbatim>\<open>'' + v\<close> for a value that may be \<^verbatim>\<open>undefined\<close>.\<close>

definition str_of :: "string option \<Rightarrow> string" where
  "str_of a = (case a of None \<Rightarrow> ''undefined'' | Some s \<Rightarrow> s)"

text \<open>\<^verbatim>\<open>['likes','dislikes','infos'].includes(field)\<close>\<close>

definition includes_field :: "string option \<Rightarrow> bool" where
  "includes_field field = (field = Some ''likes'' \<or> field = Some ''dislikes'' \<or> field = Some ''infos'')"

text \<open>
  What the script throws, and \<^verbatim>\<open>error.toString()\<close>. An \<open>Error\<close> is thrown by the script
  itself, with its message; the other three are raised by the runtime and the spreadsheet
  service, and their messages here only name the cause.
\<close>

datatype error = Error string | TypeError string | ReferenceError string | Exception string

definition toString :: "error \<Rightarrow> string" where
  "toString e = (case e of
     Error m \<Rightarrow> ''Error: '' @ m
   | TypeError m \<Rightarrow> ''TypeError: '' @ m
   | ReferenceError m \<Rightarrow> ''ReferenceError: '' @ m
   | Exception m \<Rightarrow> ''Exception: '' @ m)"

subsection \<open>The spreadsheet service\<close>

text \<open>
  The state of the store is the \<^verbatim>\<open>metrics\<close> sheet, as the list of its rows down to the
  last row with content (what \<^verbatim>\<open>getDataRange().getValues()\<close> returns); a spreadsheet
  without that sheet is the empty list, since \<^verbatim>\<open>insertSheet\<close> gives an empty sheet.
  Rows and columns are numbered from 1 by the service and from 0 in a row's array. A cell
  beyond the end of a stored row is blank. \<^verbatim>\<open>appendRow\<close> and \<^verbatim>\<open>setValue\<close> store the values
  they are given: the service's own reading of a text that looks like a number is not
  modelled.
\<close>

type_synonym row = "jsval list"
type_synonym sheet = "row list"

definition getLastRow :: "sheet \<Rightarrow> nat" where
  "getLastRow sheet = length sheet"

definition appendRow :: "sheet \<Rightarrow> row \<Rightarrow> sheet" where
  "appendRow sheet r = sheet @ [r]"

definition cell :: "row \<Rightarrow> nat \<Rightarrow> jsval" where
  "cell r c = (if c < length r then r ! c else blank)"

definition set_cell :: "row \<Rightarrow> nat \<Rightarrow> jsval \<Rightarrow> row" where
  "set_cell r c v = (r @ replicate (Suc c - length r) blank)[c := v]"

definition row_at :: "sheet \<Rightarrow> nat \<Rightarrow> row" where
  "row_at sheet n = (if 0 < n \<and> n \<le> length sheet then sheet ! (n - 1) else [])"

text \<open>\<^verbatim>\<open>sheet.getRange(row, col).getValue()\<close> and \<^verbatim>\<open>.setValue(v)\<close>\<close>

definition getValue :: "sheet \<Rightarrow> nat \<Rightarrow> nat \<Rightarrow> jsval" where
  "getValue sheet n col = cell (row_at sheet n) (col - 1)"

definition set_row :: "sheet \<Rightarrow> nat \<Rightarrow> row \<Rightarrow> sheet" where
  "set_row sheet n r = (sheet @ replicate (n - length sheet) [])[n - 1 := r]"

definition setValue :: "sheet \<Rightarrow> nat \<Rightarrow> nat \<Rightarrow> jsval \<Rightarrow> sheet" where
  "setValue sheet n col v = set_row sheet n (set_cell (row_at sheet n) (col - 1) v)"

text \<open>\<^verbatim>\<open>sheet.getRange(row, 1, 1, 4).getValues()[0]\<close>\<close>

definition getValues4 :: "sheet \<Rightarrow> nat \<Rightarrow> jsval list" where
  "getValues4 sheet n = map (cell (row_at sheet n)) [0, 1, 2, 3]"


subsection \<open>The script of apps.js\<close>

definition header :: row where
  "header = [Str ''slug'', Str ''likes'', Str ''dislikes'', Str ''infos'']"

text \<open>\<^verbatim>\<open>getSheet_\<close>: the sheet, with the header row when it has no row (the bold face of
  the header is not modelled).\<close>

definition getSheet :: "sheet \<Rightarrow> sheet" where
  "getSheet ss = (if getLastRow ss = 0 then appendRow ss header else ss)"

text \<open>The loop of \<^verbatim>\<open>findRowBySlug_\<close>, from index \<open>i\<close>.\<close>

function findRow_loop :: "sheet \<Rightarrow> string \<Rightarrow> nat \<Rightarrow> nat option" where
  "findRow_loop data slug i =
     (if i < length data
      then (if String_of (cell (data ! i) 0) = slug then Some (i + 1)
            else findRow_loop data slug (i + 1))
      else None)"
  by pat_completeness auto
termination
  by (relation "measure (\<lambda>(data, slug, i). length data - i)") auto

declare findRow_loop.simps [simp del]

definition findRowBySlug :: "sheet \<Rightarrow> string \<Rightarrow> nat option \<times> sheet" where
  "findRowBySlug ss slug =
     (let sheet = getSheet ss; data = sheet in (findRow_loop data slug 1, sheet))"

definition ensureRow :: "sheet \<Rightarrow> string \<Rightarrow> nat \<times> sheet" where
  "ensureRow ss slug =
     (let sheet = getSheet ss; (found, sheet) = findRowBySlug sheet slug
      in case found of
           Some n \<Rightarrow> (n, sheet)
         | None \<Rightarrow>
             (let sheet = appendRow sheet [Str slug, Num 0, Num 0, Num 0]
              in (getLastRow sheet, sheet)))"

text \<open>The object \<^verbatim>\<open>{slug, likes, dislikes, infos}\<close> that a read returns.\<close>

record counts =
  c_slug :: jsval
  c_likes :: jsval
  c_dislikes :: jsval
  c_infos :: jsval

definition readCounts :: "sheet \<Rightarrow> string \<Rightarrow> counts \<times> sheet" where
  "readCounts ss slug =
     (let (found, sheet) = findRowBySlug ss slug; sheet = getSheet sheet
      in case found of
           None \<Rightarrow> (\<lparr>c_slug = Str slug, c_likes = Num 0, c_dislikes = Num 0, c_infos = Num 0\<rparr>, sheet)
         | Some n \<Rightarrow>
             (let vals = getValues4 sheet n
              in (\<lparr>c_slug = vals ! 0,
                   c_likes = js_or (vals ! 1) (Num 0),
                   c_dislikes = js_or (vals ! 2) (Num 0),
                   c_infos = js_or (vals ! 3) (Num 0)\<rparr>, sheet)))"

text \<open>
  \<^verbatim>\<open>colMap[field]\<close>: the column of a counter, \<^verbatim>\<open>undefined\<close> for a name that the object
  does not have, and for a name that every object inherits from \<^verbatim>\<open>Object.prototype\<close> the
  inherited member, which is truthy and no column number.
\<close>

datatype lookup = Col nat | Inherited | Undefined

definition object_prototype :: "string list" where
  "object_prototype =
     [''constructor'', ''hasOwnProperty'', ''isPrototypeOf'', ''propertyIsEnumerable'',
      ''toLocaleString'', ''toString'', ''valueOf'', ''__proto__'', ''__defineGetter__'',
      ''__defineSetter__'', ''__lookupGetter__'', ''__lookupSetter__'']"

definition colMap :: "string option \<Rightarrow> lookup" where
  "colMap field =
     (if field = Some ''likes'' then Col 2
      else if field = Some ''dislikes'' then Col 3
      else if field = Some ''infos'' then Col 4
      else if str_of field \<in> set object_prototype then Inherited
      else Undefined)"

text \<open>
  \<^verbatim>\<open>bump_\<close>. The result is what the call returns or throws, with the store as the call
  leaves it. For an inherited member \<^verbatim>\<open>!col\<close> is false, and \<^verbatim>\<open>getRange\<close> refuses a column that
  is no number.
\<close>

definition bump :: "sheet \<Rightarrow> string \<Rightarrow> string option \<Rightarrow> (error + counts) \<times> sheet" where
  "bump ss slug field =
     (let sheet = getSheet ss; (n, sheet) = ensureRow sheet slug
      in case colMap field of
           Undefined \<Rightarrow>
             (Inl (Error (''Invalid field: '' @ str_of field @ ''. Must be likes, dislikes, or infos.'')),
              sheet)
         | Inherited \<Rightarrow>
             (Inl (Exception ''The parameters do not match the method signature for SpreadsheetApp.Sheet.getRange.''),
              sheet)
         | Col col \<Rightarrow>
             (let currentVal = js_or (getValue sheet n col) (Num 0);
                  newVal = js_add1 currentVal;
                  sheet = setValue sheet n col newVal;
                  (result, sheet) = readCounts sheet slug
              in (Inr result, sheet)))"


subsection \<open>The entry points of apps.js\<close>

text \<open>
  A request \<^verbatim>\<open>e\<close>: its query parameters \<^verbatim>\<open>e.parameter\<close>, and for the body the outcome of
  \<^verbatim>\<open>JSON.parse(e.postData.contents || '{}')\<close>, which either throws (no \<^verbatim>\<open>postData\<close>, or
  contents that are not JSON) or returns a value: \<^verbatim>\<open>null\<close>, an object, or a value of
  another kind, on which every property read here is \<^verbatim>\<open>undefined\<close>. The members of an
  object are strings, as the request format has them.
\<close>

datatype json = JNull | JObject "string \<Rightarrow> string option" | JOther

datatype parse_result = ParseThrows | ParseReturns json

record request =
  parameter :: "string \<Rightarrow> string option"
  postData :: parse_result

text \<open>\<^verbatim>\<open>payload.name\<close>\<close>

definition member :: "json \<Rightarrow> string \<Rightarrow> error + string option" where
  "member payload name = (case payload of
     JNull \<Rightarrow> Inl (TypeError (''Cannot read properties of null (reading '' @ name @ '')''))
   | JObject m \<Rightarrow> Inr (m name)
   | JOther \<Rightarrow> Inr None)"

text \<open>The object that a response serialises, and the response (JSON text, MIME type JSON).\<close>

datatype reply = CountsObj counts | ErrorObj string

datatype response = JsonOutput reply

definition createJsonResponse :: "reply \<Rightarrow> response" where
  "createJsonResponse d = JsonOutput d"

text \<open>
  Each entry point is a \<^verbatim>\<open>try\<close> block and its \<^verbatim>\<open>catch\<close>: \<open>doGet_try\<close> and \<open>doPost_try\<close>
  are the blocks, which return a response or throw.
\<close>

definition doGet_try :: "sheet \<Rightarrow> request \<Rightarrow> (error + response) \<times> sheet" where
  "doGet_try ss e =
     (let action = str_or_default (parameter e ''action'') ''get'';
          slug = str_or_default (parameter e ''slug'') ''home''
      in if action = ''get'' then
           (let (result, sheet) = readCounts ss slug
            in (Inr (createJsonResponse (CountsObj result)), sheet))
         else if action = ''bump'' then
           (let field = parameter e ''field''
            in if \<not> str_truthy field \<or> \<not> includes_field field then
                 (Inr (createJsonResponse (ErrorObj
                    ''Invalid or missing field parameter. Must be: likes, dislikes, or infos'')), ss)
               else
                 (case bump ss slug field of
                    (Inl err, sheet) \<Rightarrow> (Inl err, sheet)
                  | (Inr result, sheet) \<Rightarrow> (Inr (createJsonResponse (CountsObj result)), sheet)))
         else
           (Inr (createJsonResponse (ErrorObj
              (''Unknown action: '' @ action @ ''. Valid actions are: get, bump''))), ss))"

definition doGet :: "sheet \<Rightarrow> request \<Rightarrow> response \<times> sheet" where
  "doGet ss e = (case doGet_try ss e of
     (Inr r, sheet) \<Rightarrow> (r, sheet)
   | (Inl err, sheet) \<Rightarrow> (createJsonResponse (ErrorObj (toString err)), sheet))"

text \<open>
  The payload of \<^verbatim>\<open>doPost\<close>: the parsed body, and the query parameters when parsing throws.
\<close>

definition post_payload :: "request \<Rightarrow> json" where
  "post_payload e = (case postData e of
     ParseReturns j \<Rightarrow> j
   | ParseThrows \<Rightarrow> JObject (parameter e))"

definition doPost_try :: "sheet \<Rightarrow> request \<Rightarrow> (error + response) \<times> sheet" where
  "doPost_try ss e =
     (let payload = post_payload e
      in case member payload ''slug'' of
           Inl err \<Rightarrow> (Inl err, ss)
         | Inr payload_slug \<Rightarrow>
             (let slug = str_or_default (str_or payload_slug (parameter e ''slug'')) ''home''
              in case member payload ''field'' of
                   Inl err \<Rightarrow> (Inl err, ss)
                 | Inr payload_field \<Rightarrow>
                     (let field = str_or payload_field (parameter e ''field'')
                      in if \<not> str_truthy field \<or> \<not> includes_field field then
                           (Inr (createJsonResponse (ErrorObj
                              ''Invalid or missing field. Must be: likes, dislikes, or infos'')), ss)
                         else
                           (case bump ss slug field of
                              (Inl err, sheet) \<Rightarrow> (Inl err, sheet)
                            | (Inr result, sheet) \<Rightarrow>
                                (Inr (createJsonResponse (CountsObj result)), sheet)))))"

definition doPost :: "sheet \<Rightarrow> request \<Rightarrow> response \<times> sheet" where
  "doPost ss e = (case doPost_try ss e of
     (Inr r, sheet) \<Rightarrow> (r, sheet)
   | (Inl err, sheet) \<Rightarrow> (createJsonResponse (ErrorObj (toString err)), sheet))"

subsection \<open>The script of part_000\<close>

text \<open>
  Nothing in this version catches an error, so each function returns its value or the
  error it throws, with the store as it leaves it.

  \<^verbatim>\<open>getSheet_\<close> starts with \<^verbatim>\<open>ss.getSheetByName(metrics) || ss.insertSheet(metrics)\<close>. The file
  declares \<^verbatim>\<open>const SHEET_NAME = 'metrics'\<close> and no \<^verbatim>\<open>metrics\<close>: evaluating the argument
  throws a ReferenceError before the service is called, and the rest of the function (the
  header row) is never reached.
\<close>

definition getSheet_p0 :: "sheet \<Rightarrow> (error + unit) \<times> sheet" where
  "getSheet_p0 ss = (Inl (ReferenceError ''metrics is not defined''), ss)"

definition findRowBySlug_p0 :: "sheet \<Rightarrow> string \<Rightarrow> (error + nat option) \<times> sheet" where
  "findRowBySlug_p0 ss slug = (case getSheet_p0 ss of
     (Inl err, sheet) \<Rightarrow> (Inl err, sheet)
   | (Inr _, sheet) \<Rightarrow> (let data = sheet in (Inr (findRow_loop data slug 1), sheet)))"

definition ensureRow_p0 :: "sheet \<Rightarrow> string \<Rightarrow> (error + nat) \<times> sheet" where
  "ensureRow_p0 ss slug = (case getSheet_p0 ss of
     (Inl err, sheet) \<Rightarrow> (Inl err, sheet)
   | (Inr _, sheet) \<Rightarrow>
       (case findRowBySlug_p0 sheet slug of
          (Inl err, sheet) \<Rightarrow> (Inl err, sheet)
        | (Inr (Some n), sheet) \<Rightarrow> (Inr n, sheet)
        | (Inr None, sheet) \<Rightarrow>
            (let sheet = appendRow sheet [Str slug, Num 0, Num 0, Num 0]
             in (Inr (getLastRow sheet), sheet))))"

definition readCounts_p0 :: "sheet \<Rightarrow> string \<Rightarrow> (error + counts) \<times> sheet" where
  "readCounts_p0 ss slug = (case findRowBySlug_p0 ss slug of
     (Inl err, sheet) \<Rightarrow> (Inl err, sheet)
   | (Inr found, sheet) \<Rightarrow>
       (case getSheet_p0 sheet of
          (Inl err, sheet) \<Rightarrow> (Inl err, sheet)
        | (Inr _, sheet) \<Rightarrow>
            (case found of
               None \<Rightarrow>
                 (Inr \<lparr>c_slug = Str slug, c_likes = Num 0, c_dislikes = Num 0, c_infos = Num 0\<rparr>,
                  sheet)
             | Some n \<Rightarrow>
                 (let vals = getValues4 sheet n
                  in (Inr \<lparr>c_slug = vals ! 0, c_likes = vals ! 1, c_dislikes = vals ! 2,
                           c_infos = vals ! 3\<rparr>, sheet)))))"

text \<open>
  \<^verbatim>\<open>{likes:2, dislikes:3, infos:4}[field]\<close>, which is read only after the check of the field.
\<close>

definition column :: "string option \<Rightarrow> nat" where
  "column field = (if field = Some ''likes'' then 2 else if field = Some ''dislikes'' then 3 else 4)"

text \<open>
  \<^verbatim>\<open>Number(v)\<close>: a number as it is; the reading of a string as a number is the parameter
  \<open>stn\<close> (the language's StringToNumber).
\<close>

definition Number_of :: "(string \<Rightarrow> jsval) \<Rightarrow> jsval \<Rightarrow> jsval" where
  "Number_of stn v = (case v of Num n \<Rightarrow> Num n | NaN \<Rightarrow> NaN | Str s \<Rightarrow> stn s)"

definition bump_p0 ::
  "(string \<Rightarrow> jsval) \<Rightarrow> sheet \<Rightarrow> string \<Rightarrow> string option \<Rightarrow> (error + counts) \<times> sheet" where
  "bump_p0 stn ss slug field =
     (if \<not> includes_field field then (Inl (Error ''Invalid field''), ss)
      else case getSheet_p0 ss of
        (Inl err, sheet) \<Rightarrow> (Inl err, sheet)
      | (Inr _, sheet) \<Rightarrow>
          (case ensureRow_p0 sheet slug of
             (Inl err, sheet) \<Rightarrow> (Inl err, sheet)
           | (Inr n, sheet) \<Rightarrow>
               (let colIndex = column field;
                    sheet = setValue sheet n colIndex
                      (js_add1 (Number_of stn (js_or (getValue sheet n colIndex) (Num 0))))
                in readCounts_p0 sheet slug)))"


text \<open>
  The payload of \<^verbatim>\<open>doPost\<close> in this version: the parsed body, and the empty object when
  parsing throws.
\<close>

definition post_payload_p0 :: "request \<Rightarrow> json" where
  "post_payload_p0 e = (case postData e of
     ParseReturns j \<Rightarrow> j
   | ParseThrows \<Rightarrow> JObject (\<lambda>name. None))"

definition doPost_p0 ::
  "(string \<Rightarrow> jsval) \<Rightarrow> sheet \<Rightarrow> request \<Rightarrow> (error + response) \<times> sheet" where
  "doPost_p0 stn ss e =
     (let payload = post_payload_p0 e
      in case member payload ''slug'' of
           Inl err \<Rightarrow> (Inl err, ss)
         | Inr payload_slug \<Rightarrow>
             (let slug = str_or_default payload_slug ''home''
              in case member payload ''field'' of
                   Inl err \<Rightarrow> (Inl err, ss)
                 | Inr field \<Rightarrow>
                     (case bump_p0 stn ss slug field of
                        (Inl err, sheet) \<Rightarrow> (Inl err, sheet)
                      | (Inr result, sheet) \<Rightarrow> (Inr (JsonOutput (CountsObj result)), sheet))))"

section \<open>Notions used in the statements\<close>

text \<open>The slug that the scan compares: \<^verbatim>\<open>String(data[i][0])\<close>.\<close>

definition key :: "row \<Rightarrow> string" where
  "key r = String_of (cell r 0)"

text \<open>What \<^verbatim>\<open>readCounts_\<close> of apps.js returns for a row, and for no row.\<close>

definition row_counts :: "row \<Rightarrow> counts" where
  "row_counts r =
     \<lparr>c_slug = cell r 0, c_likes = js_or (cell r 1) (Num 0),
      c_dislikes = js_or (cell r 2) (Num 0), c_infos = js_or (cell r 3) (Num 0)\<rparr>"

definition zero_counts :: "string \<Rightarrow> counts" where
  "zero_counts slug = \<lparr>c_slug = Str slug, c_likes = Num 0, c_dislikes = Num 0, c_infos = Num 0\<rparr>"

text \<open>The row that \<^verbatim>\<open>ensureRow_\<close> appends, and a row after the write of \<^verbatim>\<open>bump_\<close> to column \<open>col\<close>.\<close>

definition new_row :: "string \<Rightarrow> row" where
  "new_row slug = [Str slug, Num 0, Num 0, Num 0]"

definition bumped :: "row \<Rightarrow> nat \<Rightarrow> row" where
  "bumped r col = set_cell r (col - 1) (js_add1 (js_or (cell r (col - 1)) (Num 0)))"

text \<open>The counter of a result that a field names, and \<^verbatim>\<open>readCounts(slug).field\<close> on a store.\<close>

definition counter_of :: "counts \<Rightarrow> string option \<Rightarrow> jsval" where
  "counter_of c field =
     (if field = Some ''likes'' then c_likes c
      else if field = Some ''dislikes'' then c_dislikes c
      else c_infos c)"

definition count_in :: "sheet \<Rightarrow> string \<Rightarrow> string option \<Rightarrow> jsval" where
  "count_in ss slug field = counter_of (fst (readCounts ss slug)) field"

text \<open>The store after \<open>k\<close> calls of \<^verbatim>\<open>bump_(slug, field)\<close> in a row, in each version.\<close>

fun bump_times :: "nat \<Rightarrow> sheet \<Rightarrow> string \<Rightarrow> string option \<Rightarrow> sheet" where
  "bump_times 0 ss slug field = ss"
| "bump_times (Suc k) ss slug field = bump_times k (snd (bump ss slug field)) slug field"

fun bump_times_p0 ::
  "(string \<Rightarrow> jsval) \<Rightarrow> nat \<Rightarrow> sheet \<Rightarrow> string \<Rightarrow> string option \<Rightarrow> sheet" where
  "bump_times_p0 stn 0 ss slug field = ss"
| "bump_times_p0 stn (Suc k) ss slug field =
     bump_times_p0 stn k (snd (bump_p0 stn ss slug field)) slug field"











section \<open>Properties\<close>

subsection \<open>The scan for a slug\<close>

lemma cell_set_cell: "cell (set_cell r c v) c' = (if c' = c then v else cell r c')"
  by (auto simp: cell_def set_cell_def nth_append nth_list_update blank_def)

lemma key_set_cell: "0 < c \<Longrightarrow> key (set_cell r c v) = key r"
  by (simp add: key_def cell_set_cell)

lemma loop_step:
  "findRow_loop data slug i =
     (if i < length data then (if key (data ! i) = slug then Some (Suc i) else findRow_loop data slug (Suc i)) else None)"
  by (subst findRow_loop.simps) (simp add: key_def)

lemma loop_Some:
  "findRow_loop data slug i = Some n \<Longrightarrow>
     i < n \<and> n \<le> length data \<and> key (data ! (n - 1)) = slug \<and>
     (\<forall>j. i \<le> j \<and> j < n - 1 \<longrightarrow> key (data ! j) \<noteq> slug)"
proof (induction data slug i rule: findRow_loop.induct)
  case (1 data slug i)
  show ?case
  proof (cases "i < length data \<and> key (data ! i) \<noteq> slug")
    case True
    then have "findRow_loop data slug (i + 1) = Some n"
      using "1.prems" by (subst (asm) loop_step) simp
    then have ih: "i + 1 < n \<and> n \<le> length data \<and> key (data ! (n - 1)) = slug \<and>
       (\<forall>j. i + 1 \<le> j \<and> j < n - 1 \<longrightarrow> key (data ! j) \<noteq> slug)"
      using "1.IH" True by (simp add: key_def)
    have "key (data ! j) \<noteq> slug" if "i \<le> j" "j < n - 1" for j
    proof (cases "j = i")
      case True
      then show ?thesis using \<open>i < length data \<and> key (data ! i) \<noteq> slug\<close> by simp
    next
      case False
      then show ?thesis using ih that by simp
    qed
    then show ?thesis using ih by simp
  next
    case False
    then show ?thesis
      using "1.prems" by (subst (asm) loop_step) (auto split: if_splits)
  qed
qed

lemma loop_None:
  "findRow_loop data slug i = None \<longleftrightarrow> (\<forall>j. i \<le> j \<and> j < length data \<longrightarrow> key (data ! j) \<noteq> slug)"
proof (induction data slug i rule: findRow_loop.induct)
  case (1 data slug i)
  show ?case
  proof (cases "i < length data")
    case False
    then have "findRow_loop data slug i = None" by (subst loop_step) simp
    then show ?thesis using False by auto
  next
    case True
    show ?thesis
    proof (cases "key (data ! i) = slug")
      case True
      then have "findRow_loop data slug i = Some (Suc i)"
        using \<open>i < length data\<close> by (subst loop_step) simp
      then show ?thesis using True \<open>i < length data\<close> by auto
    next
      case False
      then have "findRow_loop data slug i = findRow_loop data slug (i + 1)"
        using True by (subst loop_step) simp
      moreover have "findRow_loop data slug (i + 1) = None \<longleftrightarrow>
          (\<forall>j. i + 1 \<le> j \<and> j < length data \<longrightarrow> key (data ! j) \<noteq> slug)"
        using "1.IH" True False by (simp add: key_def)
      moreover have "(\<forall>j. i + 1 \<le> j \<and> j < length data \<longrightarrow> key (data ! j) \<noteq> slug) \<longleftrightarrow>
          (\<forall>j. i \<le> j \<and> j < length data \<longrightarrow> key (data ! j) \<noteq> slug)"
        using False by (metis Suc_eq_plus1 Suc_leI le_neq_implies_less le_simps(3) less_imp_le_nat not_less_eq_eq)
      ultimately show ?thesis by simp
    qed
  qed
qed

lemma loop_cong:
  "length data' = length data \<Longrightarrow>
   (\<forall>j. i \<le> j \<and> j < length data \<longrightarrow> key (data' ! j) = key (data ! j)) \<Longrightarrow>
   findRow_loop data' slug i = findRow_loop data slug i"
proof (induction data slug i rule: findRow_loop.induct)
  case (1 data slug i)
  show ?case
  proof (cases "i < length data \<and> key (data ! i) \<noteq> slug")
    case True
    then have "findRow_loop data' slug (i + 1) = findRow_loop data slug (i + 1)"
      using "1.IH" "1.prems" by (simp add: key_def)
    then show ?thesis
      using True "1.prems" by (subst loop_step, subst (2) loop_step) simp
  next
    case False
    then show ?thesis
      using "1.prems" by (subst loop_step, subst (2) loop_step) auto
  qed
qed

lemma loop_first:
  "i \<le> m \<Longrightarrow> m < length data \<Longrightarrow> key (data ! m) = slug \<Longrightarrow>
   (\<forall>j. i \<le> j \<and> j < m \<longrightarrow> key (data ! j) \<noteq> slug) \<Longrightarrow>
   findRow_loop data slug i = Some (Suc m)"
proof (induction data slug i rule: findRow_loop.induct)
  case (1 data slug i)
  show ?case
  proof (cases "i = m")
    case True
    then show ?thesis using "1.prems" by (subst loop_step) simp
  next
    case False
    then have "i < m" using "1.prems" by simp
    then have ne: "key (data ! i) \<noteq> slug" and lt: "i < length data" using "1.prems" by auto
    have "findRow_loop data slug (i + 1) = Some (Suc m)"
      using "1.IH" lt ne "1.prems" \<open>i < m\<close> by (simp add: key_def)
    then show ?thesis using lt ne by (subst loop_step) simp
  qed
qed


lemma getSheet_nonempty: "getSheet ss \<noteq> []"
  by (simp add: getSheet_def getLastRow_def appendRow_def)

lemma getSheet_length: "0 < length (getSheet ss)"
  using getSheet_nonempty [of ss] by simp

lemma getSheet_same: "ss \<noteq> [] \<Longrightarrow> getSheet ss = ss"
  by (simp add: getSheet_def getLastRow_def)

lemma getSheet_idem: "getSheet (getSheet ss) = getSheet ss"
  by (simp add: getSheet_same getSheet_nonempty)

lemma getSheet_drop: "drop 1 (getSheet ss) = drop 1 ss"
  by (simp add: getSheet_def getLastRow_def appendRow_def)

lemma findRowBySlug_eq:
  "findRowBySlug ss slug = (findRow_loop (getSheet ss) slug 1, getSheet ss)"
  by (simp add: findRowBySlug_def Let_def)

lemma row_at_nth: "0 < n \<Longrightarrow> n \<le> length sheet \<Longrightarrow> row_at sheet n = sheet ! (n - 1)"
  by (simp add: row_at_def)

lemma set_row_update: "n \<le> length sheet \<Longrightarrow> set_row sheet n r = sheet[n - 1 := r]"
  by (simp add: set_row_def)

lemma getValues4_eq:
  "getValues4 sheet n = [cell (row_at sheet n) 0, cell (row_at sheet n) 1, cell (row_at sheet n) 2, cell (row_at sheet n) 3]"
  by (simp add: getValues4_def)

lemma ensureRow_found:
  "findRow_loop (getSheet ss) slug 1 = Some n \<Longrightarrow> ensureRow ss slug = (n, getSheet ss)"
  by (simp add: ensureRow_def findRowBySlug_eq getSheet_idem Let_def)

lemma ensureRow_new:
  "findRow_loop (getSheet ss) slug 1 = None \<Longrightarrow>
   ensureRow ss slug = (Suc (length (getSheet ss)), getSheet ss @ [new_row slug])"
  by (simp add: ensureRow_def findRowBySlug_eq getSheet_idem Let_def appendRow_def
      getLastRow_def new_row_def)

lemma readCounts_found:
  assumes "findRow_loop (getSheet ss) slug 1 = Some n"
  shows "readCounts ss slug = (row_counts (getSheet ss ! (n - 1)), getSheet ss)"
proof -
  have "0 < n" "n \<le> length (getSheet ss)"
    using loop_Some [OF assms] by auto
  then show ?thesis
    using assms
    by (simp add: readCounts_def findRowBySlug_eq getSheet_idem Let_def getValues4_eq
        row_at_nth row_counts_def)
qed

lemma readCounts_none:
  "findRow_loop (getSheet ss) slug 1 = None \<Longrightarrow>
   readCounts ss slug = (zero_counts slug, getSheet ss)"
  by (simp add: readCounts_def findRowBySlug_eq getSheet_idem Let_def zero_counts_def)

lemma row_counts_new_row: "row_counts (new_row slug) = zero_counts slug"
  by (simp add: row_counts_def new_row_def zero_counts_def cell_def js_or_def truthy_def)

lemma key_new_row: "key (new_row slug) = slug"
  by (simp add: key_def new_row_def cell_def String_of_def)

text \<open>A sheet in which row \<open>n\<close> is the first one of the slug, after a write to a counter of that row.\<close>

lemma loop_update:
  assumes "findRow_loop sh slug 1 = Some n" and "key r' = key (sh ! (n - 1))"
  shows "findRow_loop (sh[n - 1 := r']) slug' 1 = findRow_loop sh slug' 1"
proof (rule loop_cong)
  show "length (sh[n - 1 := r']) = length sh" by simp
  have "n - 1 < length sh" using loop_Some [OF assms(1)] by arith
  then show "\<forall>j. 1 \<le> j \<and> j < length sh \<longrightarrow> key (sh[n - 1 := r'] ! j) = key (sh ! j)"
    using assms(2) by (auto simp: nth_list_update)
qed


lemma loop_append_none:
  assumes "findRow_loop sh slug 1 = None" and "0 < length sh"
  shows "findRow_loop (sh @ [r]) slug 1 = (if key r = slug then Some (Suc (length sh)) else None)"
proof (cases "key r = slug")
  case True
  have "findRow_loop (sh @ [r]) slug 1 = Some (Suc (length sh))"
  proof (rule loop_first)
    show "1 \<le> length sh" using assms(2) by arith
    show "length sh < length (sh @ [r])" by simp
    show "key ((sh @ [r]) ! length sh) = slug" using True by simp
    show "\<forall>j. 1 \<le> j \<and> j < length sh \<longrightarrow> key ((sh @ [r]) ! j) \<noteq> slug"
      using assms(1) by (simp add: loop_None nth_append)
  qed
  then show ?thesis using True by simp
next
  case False
  have "\<forall>j. 1 \<le> j \<and> j < length (sh @ [r]) \<longrightarrow> key ((sh @ [r]) ! j) \<noteq> slug"
    using assms(1) False by (auto simp: loop_None nth_append less_Suc_eq)
  then show ?thesis using False by (simp add: loop_None)
qed

lemma colMap_Col: "colMap field = Col col \<Longrightarrow> col = 2 \<or> col = 3 \<or> col = 4"
  by (auto simp: colMap_def split: if_splits)

lemma colMap_includes: "includes_field field \<Longrightarrow> \<exists>col. colMap field = Col col"
  by (auto simp: colMap_def includes_field_def)

lemma bump_found:
  assumes col: "colMap field = Col col" and found: "findRow_loop (getSheet ss) slug 1 = Some n"
  shows "bump ss slug field =
           (Inr (row_counts (bumped (getSheet ss ! (n - 1)) col)),
            (getSheet ss)[n - 1 := bumped (getSheet ss ! (n - 1)) col])"
proof -
  let ?sh = "getSheet ss"
  let ?r' = "bumped (?sh ! (n - 1)) col"
  let ?sh' = "?sh[n - 1 := ?r']"
  from loop_Some [OF found] have n: "0 < n" "n \<le> length ?sh" by auto
  have c: "0 < col - 1" using colMap_Col [OF col] by auto
  have k: "key ?r' = key (?sh ! (n - 1))" using c by (simp add: bumped_def key_set_cell)
  have ne: "?sh' \<noteq> []" using getSheet_nonempty [of ss] by simp
  have "findRow_loop ?sh' slug 1 = Some n"
    using loop_update [OF found k] found by simp
  then have "findRow_loop (getSheet ?sh') slug 1 = Some n"
    by (simp only: getSheet_same [OF ne])
  from readCounts_found [OF this]
  have "readCounts ?sh' slug = (row_counts (?sh' ! (n - 1)), ?sh')"
    by (simp only: getSheet_same [OF ne])
  moreover have "?sh' ! (n - 1) = ?r'"
    using n by simp
  ultimately have rc: "readCounts ?sh' slug = (row_counts ?r', ?sh')"
    by (simp only:)
  have sv: "setValue ?sh n col (js_add1 (js_or (getValue ?sh n col) (Num 0))) = ?sh'"
    using n by (simp add: setValue_def getValue_def row_at_nth set_row_update bumped_def)
  show ?thesis
    using col ensureRow_found [of "getSheet ss" slug n] found sv rc
    by (simp add: bump_def getSheet_idem Let_def)
qed

lemma bump_new:
  assumes col: "colMap field = Col col" and none: "findRow_loop (getSheet ss) slug 1 = None"
  shows "bump ss slug field =
           (Inr (row_counts (bumped (new_row slug) col)),
            getSheet ss @ [bumped (new_row slug) col])"
proof -
  let ?sh = "getSheet ss @ [new_row slug]"
  let ?n = "Suc (length (getSheet ss))"
  have found: "findRow_loop (getSheet ?sh) slug 1 = Some ?n"
    using loop_append_none [OF none getSheet_length, of "new_row slug"]
    by (simp add: getSheet_same key_new_row)
  have sh: "getSheet ?sh = ?sh" by (simp add: getSheet_same)
  have "bump ?sh slug field =
           (Inr (row_counts (bumped (?sh ! (?n - 1)) col)), ?sh[?n - 1 := bumped (?sh ! (?n - 1)) col])"
    using bump_found [OF col found] by (simp only: sh)
  then have b: "bump ?sh slug field =
           (Inr (row_counts (bumped (new_row slug) col)), getSheet ss @ [bumped (new_row slug) col])"
    by (simp add: nth_append)
  have e1: "ensureRow (getSheet ss) slug = (?n, ?sh)"
    using ensureRow_new [of "getSheet ss" slug] none by (simp add: getSheet_idem)
  have e2: "ensureRow ?sh slug = (?n, ?sh)"
    using ensureRow_found [OF found] by (simp only: sh)
  have "bump ss slug field = bump ?sh slug field"
    by (simp add: bump_def getSheet_idem sh e1 e2 Let_def)
  then show ?thesis using b by simp
qed

subsection \<open>Reads and bumps of apps.js, row by row\<close>

lemma colMap_column: "includes_field field \<Longrightarrow> colMap field = Col (column field)"
  by (auto simp: colMap_def includes_field_def column_def)

lemma column_cases: "column field = 2 \<or> column field = 3 \<or> column field = 4"
  by (simp add: column_def)

lemma js_or_add1: "js_or (js_add1 (js_or v (Num 0))) (Num 0) = js_add1 (js_or v (Num 0))"
  by (cases v) (auto simp: js_or_def js_add1_def truthy_def)

lemma counter_of_row:
  "includes_field field \<Longrightarrow>
   counter_of (row_counts r) field = js_or (cell r (column field - 1)) (Num 0)"
  by (auto simp: counter_of_def row_counts_def column_def includes_field_def)

lemma counter_of_bumped:
  "includes_field field \<Longrightarrow>
   counter_of (row_counts (bumped r (column field))) f =
     (if f = field \<or> \<not> includes_field f \<and> field = Some ''infos''
      then js_add1 (js_or (cell r (column field - 1)) (Num 0))
      else counter_of (row_counts r) f)"
  by (auto simp: counter_of_def row_counts_def column_def includes_field_def bumped_def
      cell_set_cell js_or_add1)

lemma c_slug_bumped: "c_slug (row_counts (bumped r (column field))) = c_slug (row_counts r)"
  using column_cases [of field] by (auto simp: row_counts_def bumped_def cell_set_cell)

lemma readCounts_update:
  assumes found: "findRow_loop sh slug 1 = Some n" and k: "key r' = key (sh ! (n - 1))"
  shows "readCounts (sh[n - 1 := r']) slug = (row_counts r', sh[n - 1 := r'])"
proof -
  let ?sh' = "sh[n - 1 := r']"
  from loop_Some [OF found] have n: "n - 1 < length sh" by arith
  then have ne: "?sh' \<noteq> []" by auto
  have "findRow_loop ?sh' slug 1 = Some n"
    using loop_update [OF found k] found by simp
  then have "findRow_loop (getSheet ?sh') slug 1 = Some n"
    by (simp only: getSheet_same [OF ne])
  from readCounts_found [OF this]
  have "readCounts ?sh' slug = (row_counts (?sh' ! (n - 1)), ?sh')"
    by (simp only: getSheet_same [OF ne])
  moreover have "?sh' ! (n - 1) = r'"
    using n by simp
  ultimately show ?thesis by (simp only:)
qed


lemma key_bumped: "key (bumped r (column field)) = key r"
  using column_cases [of field] by (auto simp: bumped_def key_set_cell)

text \<open>The row that a read or a bump of the slug works on: the first row of the slug, or
  the row that would be appended.\<close>

lemma bump_view:
  assumes v: "includes_field field"
  obtains r after where
    "fst (readCounts ss slug) = row_counts r"
    "bump ss slug field = (Inr (row_counts (bumped r (column field))), after)"
    "readCounts after slug = (row_counts (bumped r (column field)), after)"
proof (cases "findRow_loop (getSheet ss) slug 1")
  case None
  let ?r' = "bumped (new_row slug) (column field)"
  let ?pre = "getSheet ss @ [new_row slug]"
  let ?after = "getSheet ss @ [?r']"
  have f: "findRow_loop ?pre slug 1 = Some (Suc (length (getSheet ss)))"
    using loop_append_none [OF None getSheet_length, of "new_row slug"] by (simp add: key_new_row)
  have "readCounts (?pre[Suc (length (getSheet ss)) - 1 := ?r']) slug =
          (row_counts ?r', ?pre[Suc (length (getSheet ss)) - 1 := ?r'])"
    by (rule readCounts_update [OF f]) (simp add: key_bumped)
  then have "readCounts ?after slug = (row_counts ?r', ?after)" by simp
  moreover have "fst (readCounts ss slug) = row_counts (new_row slug)"
    by (simp add: readCounts_none [OF None] row_counts_new_row)
  moreover note bump_new [OF colMap_column [OF v] None]
  ultimately show ?thesis using that by blast
next
  case (Some n)
  let ?r = "getSheet ss ! (n - 1)"
  let ?after = "(getSheet ss)[n - 1 := bumped ?r (column field)]"
  have "readCounts ?after slug = (row_counts (bumped ?r (column field)), ?after)"
    by (rule readCounts_update [OF Some]) (simp add: key_bumped)
  moreover have "fst (readCounts ss slug) = row_counts ?r"
    by (simp add: readCounts_found [OF Some])
  moreover note bump_found [OF colMap_column [OF v] Some]
  ultimately show ?thesis using that by blast
qed

subsection \<open>Reads and bumps of apps.js\<close>

text \<open>
  In apps.js a bump of a valid field, on a store where the counter reads as a number \<open>k\<close>,
  returns the row as a read after it gives it, with that counter at \<open>k + 1\<close>, the two
  other counters and the slug as they were.
\<close>

theorem bump_increments:
  assumes "includes_field field" and "count_in ss slug field = Num k"
  shows "fst (bump ss slug field) = Inr (fst (readCounts (snd (bump ss slug field)) slug)) \<and>
         count_in (snd (bump ss slug field)) slug field = Num (k + 1) \<and>
         (\<forall>f. includes_field f \<and> f \<noteq> field \<longrightarrow>
            count_in (snd (bump ss slug field)) slug f = count_in ss slug f) \<and>
         c_slug (fst (readCounts (snd (bump ss slug field)) slug)) = c_slug (fst (readCounts ss slug))"
proof -
  from bump_view [OF assms(1), of ss slug] obtain r after where
    r: "fst (readCounts ss slug) = row_counts r"
    and b: "bump ss slug field = (Inr (row_counts (bumped r (column field))), after)"
    and a: "readCounts after slug = (row_counts (bumped r (column field)), after)"
    by blast
  have "js_or (cell r (column field - 1)) (Num 0) = Num k"
    using assms r by (simp add: count_in_def counter_of_row)
  then show ?thesis
    using assms(1) r b a
    by (auto simp: count_in_def counter_of_bumped c_slug_bumped js_add1_def includes_field_def)
qed

theorem bump_increments_witness:
  "includes_field (Some ''dislikes'') \<and>
   count_in [header, [Str ''home'', Num 1, Num 0, Num 0]] ''home'' (Some ''dislikes'') = Num 0 \<and>
   count_in (snd (bump [header, [Str ''home'', Num 1, Num 0, Num 0]] ''home'' (Some ''dislikes'')))
     ''home'' (Some ''dislikes'') = Num 1 \<and>
   count_in (snd (bump [header, [Str ''home'', Num 1, Num 0, Num 0]] ''home'' (Some ''dislikes'')))
     ''home'' (Some ''likes'') = Num 1"
proof -
  have h1: "includes_field (Some ''dislikes'')" by (simp add: includes_field_def)
  have h2: "count_in [header, [Str ''home'', Num 1, Num 0, Num 0]] ''home'' (Some ''dislikes'') = Num 0"
    by code_simp
  have h3: "count_in [header, [Str ''home'', Num 1, Num 0, Num 0]] ''home'' (Some ''likes'') = Num 1"
    by code_simp
  have h4: "includes_field (Some ''likes'')" by (simp add: includes_field_def)
  from bump_increments [OF h1 h2] h1 h2 h3 h4 show ?thesis by auto
qed

text \<open>
  In apps.js, \<open>k\<close> bumps of a valid field in a row, for a slug that had no row, leave
  the counter at \<open>k\<close>.
\<close>

lemma count_in_bump_times:
  assumes "includes_field field"
  shows "count_in ss slug field = Num a \<Longrightarrow>
         count_in (bump_times k ss slug field) slug field = Num (a + int k)"
proof (induction k arbitrary: ss a)
  case 0
  then show ?case by simp
next
  case (Suc k)
  from bump_increments [OF assms Suc.prems]
  have "count_in (snd (bump ss slug field)) slug field = Num (a + 1)" by simp
  from Suc.IH [OF this] show ?case by (simp add: algebra_simps)
qed

theorem bump_n_times:
  assumes "includes_field field" and "fst (findRowBySlug ss slug) = None"
  shows "count_in (bump_times k ss slug field) slug field = Num (int k)"
proof -
  have "findRow_loop (getSheet ss) slug 1 = None"
    using assms(2) by (simp add: findRowBySlug_eq)
  then have "count_in ss slug field = Num 0"
    by (simp add: count_in_def readCounts_none zero_counts_def counter_of_def)
  from count_in_bump_times [OF assms(1) this, of k] show ?thesis by simp
qed

theorem bump_n_times_witness:
  "includes_field (Some ''infos'') \<and> fst (findRowBySlug [] ''home'') = None \<and>
   count_in (bump_times 3 [] ''home'' (Some ''infos'')) ''home'' (Some ''infos'') = Num 3"
proof -
  have h1: "includes_field (Some ''infos'')" by (simp add: includes_field_def)
  have h2: "fst (findRowBySlug [] ''home'') = None" by code_simp
  from bump_n_times [OF h1 h2, of 3] h1 h2 show ?thesis by simp
qed

text \<open>
  In apps.js a read of a slug that has no row returns the slug with three zeros; the data
  rows are as before (the only row that a read can add is the header of an empty sheet), and
  the slug still has no row.
\<close>

theorem read_unknown_slug:
  assumes "fst (findRowBySlug ss slug) = None"
  shows "fst (readCounts ss slug) =
           \<lparr>c_slug = Str slug, c_likes = Num 0, c_dislikes = Num 0, c_infos = Num 0\<rparr> \<and>
         drop 1 (snd (readCounts ss slug)) = drop 1 ss \<and>
         (ss \<noteq> [] \<longrightarrow> snd (readCounts ss slug) = ss) \<and>
         fst (findRowBySlug (snd (readCounts ss slug)) slug) = None"
proof -
  have n: "findRow_loop (getSheet ss) slug 1 = None"
    using assms by (simp add: findRowBySlug_eq)
  show ?thesis
    using n readCounts_none [OF n] getSheet_drop [of ss] getSheet_same [of ss]
    by (simp add: zero_counts_def findRowBySlug_eq getSheet_idem)
qed

theorem read_unknown_slug_witness:
  "fst (findRowBySlug [header, [Str ''home'', Num 1, Num 1, Num 0]] ''nonexistent'') = None \<and>
   readCounts [header, [Str ''home'', Num 1, Num 1, Num 0]] ''nonexistent'' =
     (\<lparr>c_slug = Str ''nonexistent'', c_likes = Num 0, c_dislikes = Num 0, c_infos = Num 0\<rparr>,
      [header, [Str ''home'', Num 1, Num 1, Num 0]])"
proof -
  have h: "fst (findRowBySlug [header, [Str ''home'', Num 1, Num 1, Num 0]] ''nonexistent'') = None"
    by code_simp
  from read_unknown_slug [OF h] h show ?thesis
    by (simp add: prod_eq_iff)
qed

subsection \<open>Duplicate rows\<close>



subsection \<open>The version of part_000\<close>

text \<open>
  Every function of part_000 that touches the sheet starts with \<^verbatim>\<open>getSheet_\<close>, which throws
  at the undeclared \<^verbatim>\<open>metrics\<close>. A bump leaves the store as it was, whatever the field.
\<close>

lemma getSheet_p0_throws: "getSheet_p0 ss = (Inl (ReferenceError ''metrics is not defined''), ss)"
  by (simp add: getSheet_p0_def)

lemma bump_p0_store: "snd (bump_p0 stn ss slug field) = ss"
  by (simp add: bump_p0_def getSheet_p0_def)

lemma bump_times_p0_store: "bump_times_p0 stn k ss slug field = ss"
  by (induction k arbitrary: ss) (simp_all add: bump_p0_store)

text \<open>
  C3. The claim: for every slug and every store, \<^verbatim>\<open>readCounts\<close> never fails; it returns a
  result object (zeros for an unknown slug) and raises no error. apps.js keeps it:
  \<open>readCounts\<close> above has no failing path. part_000 breaks it: for every slug and every
  store \<^verbatim>\<open>readCounts_\<close> throws the ReferenceError of \<^verbatim>\<open>getSheet_\<close> and returns nothing.
\<close>

theorem readCounts_p0_throws:
  "readCounts_p0 ss slug = (Inl (ReferenceError ''metrics is not defined''), ss)"
  by (simp add: readCounts_p0_def findRowBySlug_p0_def getSheet_p0_def)

text \<open>
  C6. The claim: for a slug that has no row, \<^verbatim>\<open>readCounts\<close> returns the slug with three zeros
  and creates no row. apps.js keeps it (\<open>read_unknown_slug\<close>). In part_000 the read of an
  unknown slug returns no zeros: the scan for the row throws before it looks at the sheet.
\<close>

theorem read_unknown_slug_p0_throws:
  "findRowBySlug_p0 [header] ''nonexistent'' =
     (Inl (ReferenceError ''metrics is not defined''), [header]) \<and>
   fst (readCounts_p0 [header] ''nonexistent'') \<noteq> Inr (zero_counts ''nonexistent'')"
  by (simp add: readCounts_p0_def findRowBySlug_p0_def getSheet_p0_def)

text \<open>
  C2. The claim: one call of \<^verbatim>\<open>bump(s, f)\<close> with a valid field adds 1 to that counter of the
  slug, leaves the two others, and returns the row after the increment. apps.js keeps it
  (\<open>bump_increments\<close>). In part_000 the call passes the check of the field and then throws
  at \<^verbatim>\<open>getSheet_\<close>: nothing is written and nothing is returned.
\<close>

theorem bump_p0_throws:
  "bump_p0 stn ss slug (Some ''likes'') = (Inl (ReferenceError ''metrics is not defined''), ss) \<and>
   bump_p0 stn ss slug (Some ''dislikes'') = (Inl (ReferenceError ''metrics is not defined''), ss) \<and>
   bump_p0 stn ss slug (Some ''infos'') = (Inl (ReferenceError ''metrics is not defined''), ss)"
  by (simp add: bump_p0_def includes_field_def getSheet_p0_def)

text \<open>
  C7. The claim: \<open>n\<close> calls of \<^verbatim>\<open>bump(s, f)\<close> in a row, from a store with no row for the slug,
  leave \<^verbatim>\<open>readCounts(s).f\<close> at \<open>n\<close>. apps.js keeps it (\<open>bump_n_times\<close>). In part_000 the
  store after any number of calls is the store before them, and the read that follows throws.
\<close>

theorem bump_times_p0_throws:
  "bump_times_p0 stn k ss slug field = ss \<and>
   readCounts_p0 (bump_times_p0 stn k ss slug field) slug =
     (Inl (ReferenceError ''metrics is not defined''), ss)"
  by (simp add: bump_times_p0_store readCounts_p0_def findRowBySlug_p0_def getSheet_p0_def)

subsection \<open>A bump with an invalid field\<close>

text \<open>
  part_000 checks the field first and throws with the store untouched. apps.js makes sure
  of the row first and looks the field up after it.
\<close>

lemma bump_p0_invalid_field:
  "\<not> includes_field field \<Longrightarrow> bump_p0 stn ss slug field = (Inl (Error ''Invalid field''), ss)"
  by (simp add: bump_p0_def)

lemma bump_undefined_field:
  assumes "colMap field = Undefined"
  shows "bump ss slug field =
           (Inl (Error (''Invalid field: '' @ str_of field @ ''. Must be likes, dislikes, or infos.'')),
            snd (ensureRow ss slug))"
proof -
  have "ensureRow (getSheet ss) slug = ensureRow ss slug"
    by (simp add: ensureRow_def getSheet_idem)
  then show ?thesis
    using assms by (simp add: bump_def Let_def split: prod.splits)
qed

lemma bump_invalid_field_new_slug:
  assumes "colMap field = Undefined" and "fst (findRowBySlug ss slug) = None"
  shows "bump ss slug field =
           (Inl (Error (''Invalid field: '' @ str_of field @ ''. Must be likes, dislikes, or infos.'')),
            getSheet ss @ [[Str slug, Num 0, Num 0, Num 0]])"
proof -
  have "findRow_loop (getSheet ss) slug 1 = None"
    using assms(2) by (simp add: findRowBySlug_eq)
  then show ?thesis
    using bump_undefined_field [OF assms(1), of ss slug] ensureRow_new [of ss slug]
    by (simp add: new_row_def)
qed

text \<open>
  C1. The claim: for a slug that has no row, \<^verbatim>\<open>bump(s, field)\<close> with a field outside
  likes, dislikes, infos fails with an InvalidField error and leaves the store unchanged,
  with no row created for the slug. part_000 keeps it (\<open>bump_p0_invalid_field\<close>). In apps.js
  the error is thrown, but after \<^verbatim>\<open>ensureRow_\<close> has appended the row of the slug: on the sheet
  that holds only the header, the call for the slug \<^verbatim>\<open>page\<close> and the field \<^verbatim>\<open>invalid\<close>
  leaves the row \<^verbatim>\<open>[page, 0, 0, 0]\<close> behind, and the slug is found in row 2 afterwards.
\<close>

theorem bump_invalid_field_appends_row:
  "fst (findRowBySlug [header] ''page'') = None \<and>
   bump [header] ''page'' (Some ''invalid'') =
     (Inl (Error ''Invalid field: invalid. Must be likes, dislikes, or infos.''),
      [header, [Str ''page'', Num 0, Num 0, Num 0]]) \<and>
   fst (findRowBySlug (snd (bump [header] ''page'' (Some ''invalid''))) ''page'') = Some 2"
  by code_simp

subsection \<open>The entry points\<close>

lemma includes_field_truthy: "includes_field field \<Longrightarrow> str_truthy field"
  by (auto simp: includes_field_def str_truthy_def)

lemma str_or_same: "str_or a a = a"
  by (simp add: str_or_def)

lemma bump_valid_returns:
  assumes "includes_field field"
  obtains c s where "bump ss slug field = (Inr c, s)"
  using bump_view [OF assms, of ss slug] by blast



lemma malformed_body_rule:
  assumes "postData e = ParseThrows"
  shows "doPost ss e =
        (if includes_field (parameter e ''field'') then
           (case bump ss (str_or_default (parameter e ''slug'') ''home'') (parameter e ''field'') of
              (Inl err, sheet) \<Rightarrow> (createJsonResponse (ErrorObj (toString err)), sheet)
            | (Inr result, sheet) \<Rightarrow> (createJsonResponse (CountsObj result), sheet))
         else
           (createJsonResponse (ErrorObj ''Invalid or missing field. Must be: likes, dislikes, or infos''),
            ss))"
proof -
  have p: "post_payload e = JObject (parameter e)" using assms by (simp add: post_payload_def)
  show ?thesis
    using includes_field_truthy [of "parameter e ''field''"]
    by (simp add: doPost_def doPost_try_def p member_def str_or_same Let_def
        split: prod.splits sum.splits)
qed

text \<open>
  C5. The claim: for a POST whose body is not parseable as JSON, \<^verbatim>\<open>doPost\<close> does not abort;
  it falls back to the query parameters and proceeds. That is \<^verbatim>\<open>doPost\<close> of apps.js only.
  As amended: in apps.js, when parsing the body throws, the payload is the object of the
  query parameters, so that slug and field are those of the query, and the request ends in
  the reply of the bump or in the reply for an invalid field; in part_000, when parsing the
  body throws, the payload is the empty object, the query parameters are not read, the field
  is missing, and \<^verbatim>\<open>bump_\<close> throws \<^verbatim>\<open>Invalid field\<close> out of \<^verbatim>\<open>doPost\<close> with the store untouched.
\<close>

theorem malformed_body_falls_back:
  "(postData e = ParseThrows \<longrightarrow>
      post_payload e = JObject (parameter e) \<and>
      doPost ss e =
        (if includes_field (parameter e ''field'') then
           (case bump ss (str_or_default (parameter e ''slug'') ''home'') (parameter e ''field'') of
              (Inl err, sheet) \<Rightarrow> (createJsonResponse (ErrorObj (toString err)), sheet)
            | (Inr result, sheet) \<Rightarrow> (createJsonResponse (CountsObj result), sheet))
         else
           (createJsonResponse (ErrorObj ''Invalid or missing field. Must be: likes, dislikes, or infos''),
            ss))) \<and>
   (postData e = ParseThrows \<longrightarrow>
      post_payload_p0 e = JObject (\<lambda>name. None) \<and>
      doPost_p0 stn ss e = (Inl (Error ''Invalid field''), ss))"
proof (intro conjI impI)
  assume a: "postData e = ParseThrows"
  then show "post_payload e = JObject (parameter e)" by (simp add: post_payload_def)
  from a show "doPost ss e =
        (if includes_field (parameter e ''field'') then
           (case bump ss (str_or_default (parameter e ''slug'') ''home'') (parameter e ''field'') of
              (Inl err, sheet) \<Rightarrow> (createJsonResponse (ErrorObj (toString err)), sheet)
            | (Inr result, sheet) \<Rightarrow> (createJsonResponse (CountsObj result), sheet))
         else
           (createJsonResponse (ErrorObj ''Invalid or missing field. Must be: likes, dislikes, or infos''),
            ss))"
    by (rule malformed_body_rule)
next
  assume a: "postData e = ParseThrows"
  then show p: "post_payload_p0 e = JObject (\<lambda>name. None)" by (simp add: post_payload_p0_def)
  show "doPost_p0 stn ss e = (Inl (Error ''Invalid field''), ss)"
    by (simp add: doPost_p0_def p member_def bump_p0_def includes_field_def)
qed

theorem malformed_body_falls_back_witness:
  "postData \<lparr>parameter = [''slug'' \<mapsto> ''page'', ''field'' \<mapsto> ''likes''], postData = ParseThrows\<rparr> = ParseThrows \<and>
   doPost [] \<lparr>parameter = [''slug'' \<mapsto> ''page'', ''field'' \<mapsto> ''likes''], postData = ParseThrows\<rparr> =
     (JsonOutput (CountsObj \<lparr>c_slug = Str ''page'', c_likes = Num 1, c_dislikes = Num 0, c_infos = Num 0\<rparr>),
      [header, [Str ''page'', Num 1, Num 0, Num 0]]) \<and>
   doPost_p0 (\<lambda>s. NaN) [] \<lparr>parameter = [''slug'' \<mapsto> ''page'', ''field'' \<mapsto> ''likes''], postData = ParseThrows\<rparr> =
     (Inl (Error ''Invalid field''), [])"
proof -
  let ?e = "\<lparr>parameter = [''slug'' \<mapsto> ''page'', ''field'' \<mapsto> ''likes''], postData = ParseThrows\<rparr>"
  have h: "postData ?e = ParseThrows" by simp
  have f: "includes_field (parameter ?e ''field'')" by (simp add: includes_field_def)
  have s: "str_or_default (parameter ?e ''slug'') ''home'' = ''page''" by (simp add: str_or_default_def)
  have b: "bump [] ''page'' (Some ''likes'') =
     (Inr \<lparr>c_slug = Str ''page'', c_likes = Num 1, c_dislikes = Num 0, c_infos = Num 0\<rparr>,
      [header, [Str ''page'', Num 1, Num 0, Num 0]])"
    by code_simp
  from malformed_body_falls_back [of ?e "[]" "\<lambda>s. NaN"] h f s b
  show ?thesis by (simp add: createJsonResponse_def)
qed

text \<open>
  The claim C5 as stated fails on part_000: its \<^verbatim>\<open>doPost\<close>, given an unparseable body and a
  query that names slug and field, throws.
\<close>

theorem malformed_body_p0_aborts:
  "doPost_p0 (\<lambda>s. NaN) [] \<lparr>parameter = [''slug'' \<mapsto> ''page'', ''field'' \<mapsto> ''likes''], postData = ParseThrows\<rparr> =
     (Inl (Error ''Invalid field''), [])"
  by code_simp

lemma doGet_try_returns: "\<exists>r. fst (doGet_try ss e) = Inr r"
proof (cases "includes_field (parameter e ''field'')")
  case True
  from bump_valid_returns [OF True]
  obtain c s where "bump ss (str_or_default (parameter e ''slug'') ''home'') (parameter e ''field'') = (Inr c, s)"
    by blast
  then show ?thesis
    by (simp add: doGet_try_def Let_def split: prod.splits)
next
  case False
  then show ?thesis
    by (simp add: doGet_try_def Let_def split: prod.splits)
qed

lemma doPost_try_returns:
  assumes "post_payload e \<noteq> JNull"
  shows "\<exists>r. fst (doPost_try ss e) = Inr r"
proof -
  obtain ps pf where m: "member (post_payload e) ''slug'' = Inr ps" "member (post_payload e) ''field'' = Inr pf"
    using assms by (cases "post_payload e") (auto simp: member_def)
  show ?thesis
  proof (cases "includes_field (str_or pf (parameter e ''field''))")
    case True
    from bump_valid_returns [OF True]
    obtain c s where "bump ss (str_or_default (str_or ps (parameter e ''slug'')) ''home'')
        (str_or pf (parameter e ''field'')) = (Inr c, s)"
      by blast
    then show ?thesis using m by (simp add: doPost_try_def Let_def)
  next
    case False
    then show ?thesis using m by (simp add: doPost_try_def Let_def)
  qed
qed

text \<open>
  C4. The claim: every error of the taxonomy (InvalidField, MalformedPayload, UnknownAction)
  is returned by \<^verbatim>\<open>doGet\<close> and \<^verbatim>\<open>doPost\<close> as a payload \<^verbatim>\<open>{error: message}\<close>, and no error
  leaves an entry point as a raised exception. As amended: in apps.js a missing or invalid
  field (GET with action \<^verbatim>\<open>bump\<close>, and POST) and an unknown action are answered with an
  \<^verbatim>\<open>{error: message}\<close> payload, the store untouched; the \<^verbatim>\<open>try\<close> block of \<^verbatim>\<open>doGet\<close> throws
  nothing, that of \<^verbatim>\<open>doPost\<close> throws only on a \<^verbatim>\<open>null\<close> payload, and that error is caught
  and returned as \<^verbatim>\<open>{error: error.toString()}\<close>; a malformed body is not reported at all
  (with a valid field in the query the reply is the counts). In part_000 \<^verbatim>\<open>doPost\<close> catches
  nothing: a missing or invalid field leaves it as the error that \<^verbatim>\<open>bump_\<close> throws.
\<close>

theorem errors_as_payloads:
  "(parameter e ''action'' = Some ''bump'' \<and> \<not> includes_field (parameter e ''field'') \<longrightarrow>
      doGet ss e =
        (createJsonResponse (ErrorObj
           ''Invalid or missing field parameter. Must be: likes, dislikes, or infos''), ss)) \<and>
   (str_or_default (parameter e ''action'') ''get'' = action \<and> action \<noteq> ''get'' \<and> action \<noteq> ''bump'' \<longrightarrow>
      doGet ss e =
        (createJsonResponse (ErrorObj (''Unknown action: '' @ action @ ''. Valid actions are: get, bump'')),
         ss)) \<and>
   (member (post_payload e) ''slug'' = Inr ps \<and> member (post_payload e) ''field'' = Inr pf \<and>
    \<not> includes_field (str_or pf (parameter e ''field'')) \<longrightarrow>
      doPost ss e =
        (createJsonResponse (ErrorObj ''Invalid or missing field. Must be: likes, dislikes, or infos''),
         ss)) \<and>
   (\<exists>r. fst (doGet_try ss e) = Inr r) \<and>
   (post_payload e \<noteq> JNull \<longrightarrow> (\<exists>r. fst (doPost_try ss e) = Inr r)) \<and>
   (post_payload e = JNull \<longrightarrow>
      doPost ss e =
        (createJsonResponse (ErrorObj (toString
           (TypeError (''Cannot read properties of null (reading '' @ ''slug'' @ '')'')))), ss)) \<and>
   (postData e = ParseThrows \<and> includes_field (parameter e ''field'') \<longrightarrow>
      (\<exists>c s. doPost ss e = (createJsonResponse (CountsObj c), s))) \<and>
   (member (post_payload_p0 e) ''slug'' = Inr ps0 \<and> member (post_payload_p0 e) ''field'' = Inr pf0 \<and>
    \<not> includes_field pf0 \<longrightarrow>
      doPost_p0 stn ss e = (Inl (Error ''Invalid field''), ss))"
proof (intro conjI impI)
  assume "parameter e ''action'' = Some ''bump'' \<and> \<not> includes_field (parameter e ''field'')"
  then show "doGet ss e =
        (createJsonResponse (ErrorObj
           ''Invalid or missing field parameter. Must be: likes, dislikes, or infos''), ss)"
    by (simp add: doGet_def doGet_try_def str_or_default_def Let_def)
next
  assume "str_or_default (parameter e ''action'') ''get'' = action \<and> action \<noteq> ''get'' \<and> action \<noteq> ''bump''"
  then show "doGet ss e =
        (createJsonResponse (ErrorObj (''Unknown action: '' @ action @ ''. Valid actions are: get, bump'')),
         ss)"
    by (simp add: doGet_def doGet_try_def Let_def)
next
  assume "member (post_payload e) ''slug'' = Inr ps \<and> member (post_payload e) ''field'' = Inr pf \<and>
    \<not> includes_field (str_or pf (parameter e ''field''))"
  then show "doPost ss e =
        (createJsonResponse (ErrorObj ''Invalid or missing field. Must be: likes, dislikes, or infos''),
         ss)"
    by (simp add: doPost_def doPost_try_def Let_def)
next
  show "\<exists>r. fst (doGet_try ss e) = Inr r" by (rule doGet_try_returns)
next
  assume "post_payload e \<noteq> JNull"
  then show "\<exists>r. fst (doPost_try ss e) = Inr r" by (rule doPost_try_returns)
next
  assume "post_payload e = JNull"
  then show "doPost ss e =
        (createJsonResponse (ErrorObj (toString
           (TypeError (''Cannot read properties of null (reading '' @ ''slug'' @ '')'')))), ss)"
    by (simp add: doPost_def doPost_try_def member_def Let_def)
next
  assume a: "postData e = ParseThrows \<and> includes_field (parameter e ''field'')"
  from bump_valid_returns [of "parameter e ''field''" ss "str_or_default (parameter e ''slug'') ''home''"] a
  obtain c s where "bump ss (str_or_default (parameter e ''slug'') ''home'') (parameter e ''field'') = (Inr c, s)"
    by blast
  then have "doPost ss e = (createJsonResponse (CountsObj c), s)"
    using a malformed_body_rule [of e ss] by simp
  then show "\<exists>c s. doPost ss e = (createJsonResponse (CountsObj c), s)"
    by blast
next
  assume "member (post_payload_p0 e) ''slug'' = Inr ps0 \<and> member (post_payload_p0 e) ''field'' = Inr pf0 \<and>
    \<not> includes_field pf0"
  then show "doPost_p0 stn ss e = (Inl (Error ''Invalid field''), ss)"
    by (simp add: doPost_p0_def bump_p0_def Let_def)
qed

theorem errors_as_payloads_witness:
  "doGet [] \<lparr>parameter = [''action'' \<mapsto> ''bump'', ''field'' \<mapsto> ''shares''], postData = ParseThrows\<rparr> =
     (JsonOutput (ErrorObj ''Invalid or missing field parameter. Must be: likes, dislikes, or infos''), []) \<and>
   doGet [] \<lparr>parameter = [''action'' \<mapsto> ''reset''], postData = ParseThrows\<rparr> =
     (JsonOutput (ErrorObj ''Unknown action: reset. Valid actions are: get, bump''), []) \<and>
   doPost [] \<lparr>parameter = Map.empty, postData = ParseReturns (JObject [''field'' \<mapsto> ''shares''])\<rparr> =
     (JsonOutput (ErrorObj ''Invalid or missing field. Must be: likes, dislikes, or infos''), []) \<and>
   doPost [] \<lparr>parameter = Map.empty, postData = ParseReturns JNull\<rparr> =
     (JsonOutput (ErrorObj ''TypeError: Cannot read properties of null (reading slug)''), []) \<and>
   doPost [] \<lparr>parameter = [''field'' \<mapsto> ''likes''], postData = ParseThrows\<rparr> =
     (JsonOutput (CountsObj \<lparr>c_slug = Str ''home'', c_likes = Num 1, c_dislikes = Num 0, c_infos = Num 0\<rparr>),
      [header, [Str ''home'', Num 1, Num 0, Num 0]]) \<and>
   doPost_p0 (\<lambda>s. NaN) [] \<lparr>parameter = Map.empty, postData = ParseReturns (JObject [''field'' \<mapsto> ''shares''])\<rparr> =
     (Inl (Error ''Invalid field''), [])"
proof -
  let ?e1 = "\<lparr>parameter = [''action'' \<mapsto> ''bump'', ''field'' \<mapsto> ''shares''], postData = ParseThrows\<rparr>"
  let ?e2 = "\<lparr>parameter = [''action'' \<mapsto> ''reset''], postData = ParseThrows\<rparr>"
  let ?e3 = "\<lparr>parameter = Map.empty, postData = ParseReturns (JObject [''field'' \<mapsto> ''shares''])\<rparr>"
  let ?e4 = "\<lparr>parameter = Map.empty, postData = ParseReturns JNull\<rparr>"
  let ?e5 = "\<lparr>parameter = [''field'' \<mapsto> ''likes''], postData = ParseThrows\<rparr>"
  have c1: "doGet [] ?e1 =
     (JsonOutput (ErrorObj ''Invalid or missing field parameter. Must be: likes, dislikes, or infos''), [])"
    using errors_as_payloads [of ?e1 "[]" "''bump''" None None None None "\<lambda>s. NaN"]
    by (simp add: includes_field_def createJsonResponse_def)
  have c2: "doGet [] ?e2 =
     (JsonOutput (ErrorObj ''Unknown action: reset. Valid actions are: get, bump''), [])"
    using errors_as_payloads [of ?e2 "[]" "''reset''" None None None None "\<lambda>s. NaN"]
    by (simp add: str_or_default_def createJsonResponse_def)
  have c3: "doPost [] ?e3 =
     (JsonOutput (ErrorObj ''Invalid or missing field. Must be: likes, dislikes, or infos''), [])"
    using errors_as_payloads [of ?e3 "[]" "''get''" None "Some ''shares''" None None "\<lambda>s. NaN"]
    by (simp add: post_payload_def member_def includes_field_def str_or_def str_truthy_def
        createJsonResponse_def)
  have c4: "doPost [] ?e4 =
     (JsonOutput (ErrorObj ''TypeError: Cannot read properties of null (reading slug)''), [])"
    using errors_as_payloads [of ?e4 "[]" "''get''" None None None None "\<lambda>s. NaN"]
    by (simp add: post_payload_def toString_def createJsonResponse_def)
  have c5: "\<exists>c s. doPost [] ?e5 = (JsonOutput (CountsObj c), s)"
    using errors_as_payloads [of ?e5 "[]" "''get''" None None None None "\<lambda>s. NaN"]
    by (simp add: includes_field_def createJsonResponse_def)
  have c6: "doPost_p0 (\<lambda>s. NaN) [] ?e3 = (Inl (Error ''Invalid field''), [])"
    using errors_as_payloads [of ?e3 "[]" "''get''" None None None "Some ''shares''" "\<lambda>s. NaN"]
    by (simp add: post_payload_p0_def member_def includes_field_def)
  have v5: "doPost [] ?e5 =
     (JsonOutput (CountsObj \<lparr>c_slug = Str ''home'', c_likes = Num 1, c_dislikes = Num 0, c_infos = Num 0\<rparr>),
      [header, [Str ''home'', Num 1, Num 0, Num 0]])"
    by code_simp
  from c1 c2 c3 c4 c5 c6 v5 show ?thesis by blast
qed

text \<open>
  The claim C4 as stated fails twice: \<^verbatim>\<open>doPost\<close> of apps.js answers a malformed body with
  counts, not with an error payload, and \<^verbatim>\<open>doPost\<close> of part_000 lets the error of an invalid
  field escape.
\<close>

theorem errors_not_all_payloads:
  "doPost [] \<lparr>parameter = [''field'' \<mapsto> ''likes''], postData = ParseThrows\<rparr> =
     (JsonOutput (CountsObj \<lparr>c_slug = Str ''home'', c_likes = Num 1, c_dislikes = Num 0, c_infos = Num 0\<rparr>),
      [header, [Str ''home'', Num 1, Num 0, Num 0]]) \<and>
   doPost_p0 (\<lambda>s. NaN) [] \<lparr>parameter = Map.empty, postData = ParseReturns (JObject [''field'' \<mapsto> ''shares''])\<rparr> =
     (Inl (Error ''Invalid field''), [])"
  by code_simp

subsection \<open>The invariant of the store\<close>












































end
